theory Spec2Isabelle
  imports Main "HOL-Library.AList" "HOL-Library.Sublist"
begin

section \<open>Friends List API with JWT authentication\<close>

text \<open>
  A shallow embedding of \<^verbatim>\<open>index.js\<close> (credential store, login, the authentication
  middleware in front of \<^verbatim>\<open>/friends\<close>) and of \<^verbatim>\<open>router/friends.js\<close> (the friend
  store and its five handlers). The router source holds two successive versions of the
  same file; the handlers below are those of the later one (email check in POST,
  changed-value comparison in PUT, \<^verbatim>\<open>remainingCount\<close> in DELETE), which is the one
  \<^verbatim>\<open>index.js\<close> and the README describe.

  Request data is typed as the data model types it: every field of a JSON body is a
  string or is missing (\<^verbatim>\<open>undefined\<close>), and path parameters are strings. A handler is
  a function from the state before the request to the response and the state after
  it. The text of a response message is not kept; each response of the source is one
  constructor, and the documentation of the constructor quotes its status and message.
  The \<^verbatim>\<open>catch\<close> blocks of the handlers (status 500) have no constructor: on strings
  no statement of a \<^verbatim>\<open>try\<close> block throws, since \<^verbatim>\<open>email.includes\<close> is called on a
  non-empty string and a property of \<^verbatim>\<open>friends[email]\<close> is read or written only after
  the check that \<^verbatim>\<open>friends[email]\<close> is truthy.
\<close>

subsection \<open>JavaScript values and objects\<close>

text \<open>
  A plain object (a parsed body, or the properties added to a built-in object) is the
  finite map of its own string-valued properties. A property that an object does not
  own is read from its prototype chain, which ends in \<^verbatim>\<open>Object.prototype\<close>.
\<close>

type_synonym jsobject = "string \<rightharpoonup> string"

record friend =
  firstName :: string
  lastName :: string
  DOB :: string

datatype field = F_firstName | F_lastName | F_DOB

fun field_name :: "field \<Rightarrow> string" where
  "field_name F_firstName = ''firstName''"
| "field_name F_lastName = ''lastName''"
| "field_name F_DOB = ''DOB''"

fun get_field :: "field \<Rightarrow> friend \<Rightarrow> string" where
  "get_field F_firstName r = firstName r"
| "get_field F_lastName r = lastName r"
| "get_field F_DOB r = DOB r"

fun set_field :: "field \<Rightarrow> string \<Rightarrow> friend \<Rightarrow> friend" where
  "set_field F_firstName v r = r\<lparr>firstName := v\<rparr>"
| "set_field F_lastName v r = r\<lparr>lastName := v\<rparr>"
| "set_field F_DOB v r = r\<lparr>DOB := v\<rparr>"

text \<open>
  What the expression \<^verbatim>\<open>friends[email]\<close> can evaluate to: \<^verbatim>\<open>undefined\<close>, a primitive
  string, a friend record, or one of the built-in objects that every object literal
  inherits (\<open>Builtin ''toString''\<close> is the function \<^verbatim>\<open>Object.prototype.toString\<close>,
  \<open>Builtin ''__proto__''\<close> is \<^verbatim>\<open>Object.prototype\<close> itself).
\<close>

datatype jsvalue = Undefined | Str string | Rec friend | Builtin string

text \<open>JavaScript truthiness: \<^verbatim>\<open>undefined\<close> and the empty string are falsy, objects are truthy.\<close>

fun truthy :: "jsvalue \<Rightarrow> bool" where
  "truthy Undefined = False"
| "truthy (Str s) = (s \<noteq> [])"
| "truthy (Rec r) = True"
| "truthy (Builtin n) = True"

fun falsy :: "string option \<Rightarrow> bool" where
  "falsy None = True"
| "falsy (Some s) = (s = [])"

text \<open>The property names that \<^verbatim>\<open>Object.prototype\<close> defines, hence that every object literal inherits.\<close>

definition object_prototype_names :: "string list" where
  "object_prototype_names =
     [''constructor'', ''__defineGetter__'', ''__defineSetter__'', ''hasOwnProperty'',
      ''__lookupGetter__'', ''__lookupSetter__'', ''isPrototypeOf'', ''propertyIsEnumerable'',
      ''toString'', ''valueOf'', ''__proto__'', ''toLocaleString'']"

text \<open>\<^verbatim>\<open>String.prototype.includes\<close>: the argument occurs as a contiguous substring.\<close>

fun str_includes :: "string \<Rightarrow> string \<Rightarrow> bool" where
  "str_includes [] t = (t = [])"
| "str_includes (c # cs) t = (take (length t) (c # cs) = t \<or> str_includes cs t)"

subsection \<open>The friend store\<close>

text \<open>
  \<open>friends\<close> is the object \<^verbatim>\<open>let friends = {...}\<close>: its own properties in insertion order
  (the order of \<^verbatim>\<open>Object.keys\<close>). \<open>builtins\<close> holds the properties that requests have
  added to the built-in objects reachable through \<^verbatim>\<open>friends[name]\<close>; at start there are
  none.
\<close>

record store =
  friends :: "(string \<times> friend) list"
  builtins :: "string \<Rightarrow> jsobject"

definition initial_store :: store where
  "initial_store =
     \<lparr>friends =
        [(''johnsmith@gmail.com'', \<lparr>firstName = ''John'', lastName = ''Doe'', DOB = ''22-12-1990''\<rparr>),
         (''annasmith@gmail.com'', \<lparr>firstName = ''Anna'', lastName = ''Smith'', DOB = ''02-07-1983''\<rparr>),
         (''peterjones@gmail.com'', \<lparr>firstName = ''Peter'', lastName = ''Jones'', DOB = ''21-03-1989''\<rparr>)],
      builtins = (\<lambda>n. Map.empty)\<rparr>"

text \<open>The properties that requests have added to \<^verbatim>\<open>Object.prototype\<close>.\<close>

definition object_prototype :: "store \<Rightarrow> jsobject" where
  "object_prototype \<sigma> = builtins \<sigma> ''__proto__''"

text \<open>
  \<^verbatim>\<open>obj.k\<close> for a plain object and one of the names \<^verbatim>\<open>email\<close>, \<^verbatim>\<open>firstName\<close>,
  \<^verbatim>\<open>lastName\<close>, \<^verbatim>\<open>DOB\<close>: the own property, else the one inherited from
  \<^verbatim>\<open>Object.prototype\<close>, else \<^verbatim>\<open>undefined\<close>.
\<close>

definition get_prop :: "store \<Rightarrow> jsobject \<Rightarrow> string \<Rightarrow> string option" where
  "get_prop \<sigma> obj k = (case obj k of Some v \<Rightarrow> Some v | None \<Rightarrow> object_prototype \<sigma> k)"

text \<open>\<^verbatim>\<open>friends[email]\<close>: an own property first, then the prototype chain.\<close>

definition friends_at :: "store \<Rightarrow> string \<Rightarrow> jsvalue" where
  "friends_at \<sigma> email =
     (case map_of (friends \<sigma>) email of
        Some r \<Rightarrow> Rec r
      | None \<Rightarrow>
          if email \<in> set object_prototype_names then Builtin email
          else (case object_prototype \<sigma> email of Some s \<Rightarrow> Str s | None \<Rightarrow> Undefined))"

text \<open>
  \<^verbatim>\<open>friends[email].firstName\<close> (and the other two fields) as a read. A primitive
  string has none of the three properties of its own. The handlers read a field only
  after the existence check, so the value is never \<^verbatim>\<open>undefined\<close> there.
\<close>

fun field_of :: "store \<Rightarrow> jsvalue \<Rightarrow> field \<Rightarrow> string option" where
  "field_of \<sigma> (Rec r) f = Some (get_field f r)"
| "field_of \<sigma> (Builtin n) f = get_prop \<sigma> (builtins \<sigma> n) (field_name f)"
| "field_of \<sigma> (Str s) f = object_prototype \<sigma> (field_name f)"
| "field_of \<sigma> Undefined f = None"

text \<open>
  \<^verbatim>\<open>friends[email].firstName = v\<close> as a write: into the record, or into the built-in
  object; a write to a property of a primitive string has no effect (the module is
  not in strict mode).
\<close>

definition assign_field :: "store \<Rightarrow> string \<Rightarrow> field \<Rightarrow> string \<Rightarrow> store" where
  "assign_field \<sigma> email f v =
     (case friends_at \<sigma> email of
        Rec r \<Rightarrow> \<sigma>\<lparr>friends := AList.update email (set_field f v r) (friends \<sigma>)\<rparr>
      | Builtin n \<Rightarrow> \<sigma>\<lparr>builtins := (builtins \<sigma>)(n := (builtins \<sigma> n)(field_name f \<mapsto> v))\<rparr>
      | Str s \<Rightarrow> \<sigma>
      | Undefined \<Rightarrow> \<sigma>)"

text \<open>
  The responses of the router.
  \<^item> \<open>FriendsList data count\<close>: 200, \<^verbatim>\<open>{success: true, data: friends, count, message}\<close>.
  \<^item> \<open>FriendFound data\<close>: 200, \<^verbatim>\<open>{success: true, data: friend, message}\<close>.
  \<^item> \<open>NotFound email\<close>: 404, "Friend with email '...' not found".
  \<^item> \<open>FieldsRequired\<close>: 400, "All fields are required: email, firstName, lastName, DOB".
  \<^item> \<open>InvalidEmail\<close>: 400, "Please provide a valid email address".
  \<^item> \<open>AlreadyExists email\<close>: 400, "Friend with email '...' already exists".
  \<^item> \<open>Created data\<close>: 201, "Friend created successfully", \<^verbatim>\<open>data: friends[email]\<close>.
  \<^item> \<open>Updated data updatedFields\<close>: 200, \<^verbatim>\<open>data: friends[email]\<close>, and the property
    \<^verbatim>\<open>updatedFields\<close>, which is the list of names or \<^verbatim>\<open>undefined\<close> (\<open>None\<close>).
  \<^item> \<open>Deleted data remainingCount\<close>: 200, where \<open>data\<close> stands for the fresh object
    \<^verbatim>\<open>{ ...friends[email] }\<close>, the copy of the enumerable own properties of the value.
\<close>

datatype reply =
    FriendsList "(string \<times> friend) list" nat
  | FriendFound jsvalue
  | NotFound string
  | FieldsRequired
  | InvalidEmail
  | AlreadyExists string
  | Created jsvalue
  | Updated jsvalue "string list option"
  | Deleted jsvalue nat

fun status :: "reply \<Rightarrow> nat" where
  "status (FriendsList d n) = 200"
| "status (FriendFound d) = 200"
| "status (NotFound e) = 404"
| "status FieldsRequired = 400"
| "status InvalidEmail = 400"
| "status (AlreadyExists e) = 400"
| "status (Created d) = 201"
| "status (Updated d u) = 200"
| "status (Deleted d n) = 200"

text \<open>\<^verbatim>\<open>Object.keys(friends)\<close>.\<close>

definition keys :: "store \<Rightarrow> string list" where
  "keys \<sigma> = map fst (friends \<sigma>)"

text \<open>\<^verbatim>\<open>GET /friends\<close>.\<close>

definition router_get_all :: "store \<Rightarrow> reply" where
  "router_get_all \<sigma> = FriendsList (friends \<sigma>) (length (keys \<sigma>))"

text \<open>\<^verbatim>\<open>GET /friends/:email\<close>.\<close>

definition router_get :: "store \<Rightarrow> string \<Rightarrow> reply" where
  "router_get \<sigma> email =
     (let friend = friends_at \<sigma> email
      in if truthy friend then FriendFound friend else NotFound email)"

text \<open>
  \<^verbatim>\<open>POST /friends\<close>. The four fields are destructured from the body; the three checks
  are made in the order of the source; the assignment \<^verbatim>\<open>friends[email] = {...}\<close> adds
  an own property at the end, since it runs only when \<^verbatim>\<open>friends[email]\<close> is falsy.
\<close>

definition router_post :: "store \<Rightarrow> jsobject \<Rightarrow> reply \<times> store" where
  "router_post \<sigma> body =
     (case (get_prop \<sigma> body ''email'', get_prop \<sigma> body ''firstName'',
            get_prop \<sigma> body ''lastName'', get_prop \<sigma> body ''DOB'') of
        (Some email, Some fn, Some ln, Some dob) \<Rightarrow>
          if email = [] \<or> fn = [] \<or> ln = [] \<or> dob = [] then (FieldsRequired, \<sigma>)
          else if \<not> str_includes email ''@'' \<or> \<not> str_includes email ''.'' then (InvalidEmail, \<sigma>)
          else if truthy (friends_at \<sigma> email) then (AlreadyExists email, \<sigma>)
          else
            (let \<sigma>' = \<sigma>\<lparr>friends :=
                   AList.update email \<lparr>firstName = fn, lastName = ln, DOB = dob\<rparr> (friends \<sigma>)\<rparr>
             in (Created (friends_at \<sigma>' email), \<sigma>'))
      | _ \<Rightarrow> (FieldsRequired, \<sigma>))"

text \<open>
  One of the three blocks of \<^verbatim>\<open>PUT /friends/:email\<close>:
  \<^verbatim>\<open>if (updates.f !== undefined && updates.f !== friends[email].f)
       { friends[email].f = updates.f; updatedFields.push('f'); }\<close>
\<close>

fun put_field :: "field \<Rightarrow> string \<Rightarrow> jsobject \<Rightarrow> store \<times> string list \<Rightarrow> store \<times> string list" where
  "put_field f email updates (\<sigma>, updatedFields) =
     (case get_prop \<sigma> updates (field_name f) of
        None \<Rightarrow> (\<sigma>, updatedFields)
      | Some v \<Rightarrow>
          if Some v \<noteq> field_of \<sigma> (friends_at \<sigma> email) f
          then (assign_field \<sigma> email f v, updatedFields @ [field_name f])
          else (\<sigma>, updatedFields))"

definition put_fields :: "string \<Rightarrow> jsobject \<Rightarrow> store \<Rightarrow> store \<times> string list" where
  "put_fields email updates \<sigma> =
     put_field F_DOB email updates
       (put_field F_lastName email updates
          (put_field F_firstName email updates (\<sigma>, [])))"

text \<open>\<^verbatim>\<open>PUT /friends/:email\<close>.\<close>

definition router_put :: "store \<Rightarrow> string \<Rightarrow> jsobject \<Rightarrow> reply \<times> store" where
  "router_put \<sigma> email updates =
     (if \<not> truthy (friends_at \<sigma> email) then (NotFound email, \<sigma>)
      else
        (let (\<sigma>', updatedFields) = put_fields email updates \<sigma>
         in (Updated (friends_at \<sigma>' email)
               (if length updatedFields > 0 then Some updatedFields else None), \<sigma>')))"

text \<open>
  \<^verbatim>\<open>DELETE /friends/:email\<close>. \<^verbatim>\<open>delete friends[email]\<close> removes an own property and
  does nothing when the object has no own property of that name.
\<close>

definition router_delete :: "store \<Rightarrow> string \<Rightarrow> reply \<times> store" where
  "router_delete \<sigma> email =
     (if \<not> truthy (friends_at \<sigma> email) then (NotFound email, \<sigma>)
      else
        (let deletedFriend = friends_at \<sigma> email;
             \<sigma>' = \<sigma>\<lparr>friends := AList.delete email (friends \<sigma>)\<rparr>
         in (Deleted deletedFriend (length (keys \<sigma>')), \<sigma>')))"

text \<open>The requests of the router, and the states that a sequence of requests can reach.\<close>

datatype request =
    GetAll
  | GetOne string
  | Post jsobject
  | Put string jsobject
  | Delete string

fun router :: "store \<Rightarrow> request \<Rightarrow> reply \<times> store" where
  "router \<sigma> GetAll = (router_get_all \<sigma>, \<sigma>)"
| "router \<sigma> (GetOne email) = (router_get \<sigma> email, \<sigma>)"
| "router \<sigma> (Post body) = router_post \<sigma> body"
| "router \<sigma> (Put email updates) = router_put \<sigma> email updates"
| "router \<sigma> (Delete email) = router_delete \<sigma> email"

fun run :: "store \<Rightarrow> request list \<Rightarrow> store" where
  "run \<sigma> [] = \<sigma>"
| "run \<sigma> (req # reqs) = run (snd (router \<sigma> req)) reqs"

inductive reachable :: "store \<Rightarrow> bool" where
  reachable_init: "reachable initial_store"
| reachable_step: "reachable \<sigma> \<Longrightarrow> reachable (snd (router \<sigma> req))"

subsection \<open>Credential store, tokens and sessions\<close>

text \<open>The array \<^verbatim>\<open>users\<close>; \<open>createdAt\<close> is the clock value that the source renders as an ISO string.\<close>

record user =
  username :: string
  password :: string
  createdAt :: nat

definition doesExist :: "user list \<Rightarrow> string \<Rightarrow> bool" where
  "doesExist users uname = list_ex (\<lambda>user. username user = uname) users"

definition authenticatedUser :: "user list \<Rightarrow> string \<Rightarrow> string \<Rightarrow> bool" where
  "authenticatedUser users uname pword =
     list_ex (\<lambda>user. username user = uname \<and> password user = pword) users"

text \<open>
  Modelled from the spec: \<^verbatim>\<open>jwt.sign\<close> and \<^verbatim>\<open>jwt.verify\<close> belong to the package
  \<^verbatim>\<open>jsonwebtoken\<close>, which is a dependency and not part of the sources. A token is
  the signed structure of the data model: the username, the opaque payload, the time
  of issue and the expiry, together with the key that signed it. Issuing embeds the
  expiry \<open>now + ttl\<close>; verification fails if the signature does not match the secret
  or if \<open>now > expiresAt\<close>, and otherwise returns the embedded claims. Times are in
  seconds.
\<close>

record claims =
  claim_username :: string
  data :: string
  issuedAt :: nat
  expiresAt :: nat

datatype token = Signed claims string

definition jwt_sign :: "string \<Rightarrow> string \<Rightarrow> string \<Rightarrow> nat \<Rightarrow> nat \<Rightarrow> token" where
  "jwt_sign uname payload secret expiresIn now =
     Signed \<lparr>claim_username = uname, data = payload, issuedAt = now, expiresAt = now + expiresIn\<rparr>
       secret"

fun jwt_verify :: "token \<Rightarrow> string \<Rightarrow> nat \<Rightarrow> claims option" where
  "jwt_verify (Signed c key) secret now =
     (if key \<noteq> secret \<or> now > expiresAt c then None else Some c)"

text \<open>
  \<^verbatim>\<open>req.session\<close>: the property \<^verbatim>\<open>authorization\<close> is \<^verbatim>\<open>undefined\<close> until a login
  stores \<^verbatim>\<open>{accessToken, username}\<close> in it.
\<close>

record session_auth =
  accessToken :: token
  auth_username :: string

record session =
  authorization :: "session_auth option"
  cookie_maxAge :: nat

text \<open>\<^verbatim>\<open>req.user = {username, data}\<close>, the identity attached for the handlers downstream.\<close>

record req_user =
  user_username :: string
  user_data :: string

text \<open>
  The outcome of the middleware mounted on \<^verbatim>\<open>/friends\<close>:
  \<^item> \<open>Respond401\<close>: 401, "Authentication required. Please login first.";
  \<^item> \<open>Respond403\<close>: 403, "Session expired or invalid. Please login again.";
  \<^item> \<open>Next u\<close>: \<^verbatim>\<open>req.user\<close> is set to \<open>u\<close> and \<^verbatim>\<open>next()\<close> is called.
\<close>

datatype gate = Respond401 | Respond403 | Next req_user

definition authMiddleware :: "session \<Rightarrow> nat \<Rightarrow> gate" where
  "authMiddleware sess now =
     (case authorization sess of
        None \<Rightarrow> Respond401
      | Some auth \<Rightarrow>
          (case jwt_verify (accessToken auth) ''access'' now of
             None \<Rightarrow> Respond403
           | Some decoded \<Rightarrow>
               Next \<lparr>user_username = auth_username auth, user_data = data decoded\<rparr>))"

text \<open>
  A request to \<^verbatim>\<open>/friends\<close>: the middleware runs first, and the router mounted after
  it on the same path runs only when the middleware calls \<^verbatim>\<open>next()\<close>.
\<close>

datatype friends_response = Refused gate | Handled req_user reply

definition app_friends :: "session \<Rightarrow> nat \<Rightarrow> store \<Rightarrow> request \<Rightarrow> friends_response \<times> store" where
  "app_friends sess now \<sigma> req =
     (case authMiddleware sess now of
        Next u \<Rightarrow> (let (r, \<sigma>') = router \<sigma> req in (Handled u r, \<sigma>'))
      | g \<Rightarrow> (Refused g, \<sigma>))"

text \<open>
  The responses of \<^verbatim>\<open>/register\<close> and \<^verbatim>\<open>/login\<close>:
  \<^item> \<open>CredentialsRequired\<close>: 400, "Username and password are required.";
  \<^item> \<open>UsernameExists\<close>: 409, "Username already exists. Please choose a different username.";
  \<^item> \<open>Registered\<close>: 201, "User registered successfully. You can now login.";
  \<^item> \<open>InvalidCredentials\<close>: 401, "Invalid username or password.";
  \<^item> \<open>LoginSuccessful username\<close>: 200, "Login successful".
\<close>

datatype auth_reply =
    CredentialsRequired
  | UsernameExists
  | Registered
  | InvalidCredentials
  | LoginSuccessful string

fun auth_status :: "auth_reply \<Rightarrow> nat" where
  "auth_status CredentialsRequired = 400"
| "auth_status UsernameExists = 409"
| "auth_status Registered = 201"
| "auth_status InvalidCredentials = 401"
| "auth_status (LoginSuccessful u) = 200"

text \<open>\<^verbatim>\<open>POST /register\<close>; \<open>now\<close> is the clock at the request.\<close>

definition register :: "user list \<Rightarrow> string option \<Rightarrow> string option \<Rightarrow> nat \<Rightarrow> auth_reply \<times> user list" where
  "register users uname pword now =
     (if falsy uname \<or> falsy pword then (CredentialsRequired, users)
      else if doesExist users (the uname) then (UsernameExists, users)
      else (Registered,
            users @ [\<lparr>username = the uname, password = the pword, createdAt = now\<rparr>]))"

text \<open>\<^verbatim>\<open>POST /login\<close>; the token is valid for one hour, and so is the session cookie.\<close>

definition login :: "user list \<Rightarrow> session \<Rightarrow> string option \<Rightarrow> string option \<Rightarrow> nat \<Rightarrow> auth_reply \<times> session" where
  "login users sess uname pword now =
     (if falsy uname \<or> falsy pword then (CredentialsRequired, sess)
      else if \<not> authenticatedUser users (the uname) (the pword) then (InvalidCredentials, sess)
      else
        (let accessToken = jwt_sign (the uname) (the pword) ''access'' (60 * 60) now
         in (LoginSuccessful (the uname),
             sess\<lparr>authorization := Some \<lparr>accessToken = accessToken, auth_username = the uname\<rparr>,
                  cookie_maxAge := 60 * 60 * 1000\<rparr>)))"

subsection \<open>Notions used to state the properties\<close>

text \<open>
  The record obtained from \<open>r\<close> by storing every field that the object \<open>u\<close> provides,
  and the names of the fields whose provided value differs from the one in \<open>r\<close>, in
  the order \<^verbatim>\<open>firstName\<close>, \<^verbatim>\<open>lastName\<close>, \<^verbatim>\<open>DOB\<close>.
\<close>

definition apply_updates :: "friend \<Rightarrow> jsobject \<Rightarrow> friend" where
  "apply_updates r u =
     fold (\<lambda>f r. case u (field_name f) of None \<Rightarrow> r | Some v \<Rightarrow> set_field f v r)
       [F_firstName, F_lastName, F_DOB] r"

definition changed_fields :: "friend \<Rightarrow> jsobject \<Rightarrow> string list" where
  "changed_fields r u =
     map field_name
       (filter (\<lambda>f. case u (field_name f) of None \<Rightarrow> False | Some v \<Rightarrow> v \<noteq> get_field f r)
          [F_firstName, F_lastName, F_DOB])"

text \<open>
  A sequence of updates of one email, with the responses in order. \<open>apply_changed\<close>
  applies to a record what one response reports: each field named in the list of
  changed fields takes the value it has in the returned record.
\<close>

fun run_updates :: "store \<Rightarrow> string \<Rightarrow> jsobject list \<Rightarrow> reply list \<times> store" where
  "run_updates \<sigma> email [] = ([], \<sigma>)"
| "run_updates \<sigma> email (u # us) =
     (let (rep, \<sigma>') = router_put \<sigma> email u;
          (reps, \<sigma>'') = run_updates \<sigma>' email us
      in (rep # reps, \<sigma>''))"

fun apply_changed :: "friend \<Rightarrow> reply \<Rightarrow> friend" where
  "apply_changed r (Updated (Rec d) (Some names)) =
     fold (\<lambda>f r. if field_name f \<in> set names then set_field f (get_field f d) r else r)
       [F_firstName, F_lastName, F_DOB] r"
| "apply_changed r rep = r"

text \<open>
  The invariant of the reachable states: the own keys of the store are pairwise
  distinct and each contains an \<^verbatim>\<open>@\<close> (so none of them is an inherited name), and
  requests add to the built-in objects no property other than the three fields.
\<close>

definition store_inv :: "store \<Rightarrow> bool" where
  "store_inv \<sigma> \<longleftrightarrow>
     distinct (keys \<sigma>) \<and>
     (\<forall>e \<in> set (keys \<sigma>). str_includes e ''@'') \<and>
     (\<forall>n k. k \<in> dom (builtins \<sigma> n) \<longrightarrow> k \<in> range field_name)"

section \<open>Properties of the friend store\<close>

subsection \<open>Reading and writing a stored record\<close>

lemma friends_at_own: "map_of (friends \<sigma>) email = Some r \<Longrightarrow> friends_at \<sigma> email = Rec r"
  by (simp add: friends_at_def)

lemma get_prop_friends_update [simp]: "get_prop (\<sigma>\<lparr>friends := fs\<rparr>) u k = get_prop \<sigma> u k"
  by (simp add: get_prop_def object_prototype_def split: option.splits)

lemma get_prop_own: "u k = Some v \<Longrightarrow> get_prop \<sigma> u k = Some v"
  by (simp add: get_prop_def)

lemma get_prop_pristine:
  "object_prototype \<sigma> k = None \<Longrightarrow> get_prop \<sigma> u k = u k"
  by (simp add: get_prop_def split: option.splits)

lemma set_field_same: "set_field f (get_field f r) r = r"
  by (cases f) simp_all

text \<open>One block of the PUT handler, when the email is an own key of the store.\<close>

lemma put_field_own:
  assumes "map_of (friends \<sigma>) email = Some r"
  shows "put_field f email u (\<sigma>, names) =
           (\<sigma>\<lparr>friends := AList.update email
                 (case get_prop \<sigma> u (field_name f) of None \<Rightarrow> r | Some v \<Rightarrow> set_field f v r)
                 (friends \<sigma>)\<rparr>,
            names @ (case get_prop \<sigma> u (field_name f) of
                       None \<Rightarrow> [] | Some v \<Rightarrow> if v \<noteq> get_field f r then [field_name f] else []))"
  using assms
  by (auto simp: friends_at_own assign_field_def update_triv set_field_same split: option.splits)

text \<open>The three blocks in sequence: each reads the record that the block before it left.\<close>

lemma put_fields_own:
  assumes "map_of (friends \<sigma>) email = Some r"
  shows "put_fields email u \<sigma> =
           (\<sigma>\<lparr>friends := AList.update email (apply_updates r (get_prop \<sigma> u)) (friends \<sigma>)\<rparr>,
            changed_fields r (get_prop \<sigma> u))"
proof -
  define g where "g = get_prop \<sigma> u"
  define r1 where "r1 = (case g (field_name F_firstName) of None \<Rightarrow> r | Some v \<Rightarrow> set_field F_firstName v r)"
  define r2 where "r2 = (case g (field_name F_lastName) of None \<Rightarrow> r1 | Some v \<Rightarrow> set_field F_lastName v r1)"
  define r3 where "r3 = (case g (field_name F_DOB) of None \<Rightarrow> r2 | Some v \<Rightarrow> set_field F_DOB v r2)"
  define n1 where "n1 = (case g (field_name F_firstName) of None \<Rightarrow> []
                         | Some v \<Rightarrow> if v \<noteq> get_field F_firstName r then [field_name F_firstName] else [])"
  define n2 where "n2 = (case g (field_name F_lastName) of None \<Rightarrow> []
                         | Some v \<Rightarrow> if v \<noteq> get_field F_lastName r1 then [field_name F_lastName] else [])"
  define n3 where "n3 = (case g (field_name F_DOB) of None \<Rightarrow> []
                         | Some v \<Rightarrow> if v \<noteq> get_field F_DOB r2 then [field_name F_DOB] else [])"
  define s1 where "s1 = \<sigma>\<lparr>friends := AList.update email r1 (friends \<sigma>)\<rparr>"
  define s2 where "s2 = \<sigma>\<lparr>friends := AList.update email r2 (friends \<sigma>)\<rparr>"
  define s3 where "s3 = \<sigma>\<lparr>friends := AList.update email r3 (friends \<sigma>)\<rparr>"
  have m1: "map_of (friends s1) email = Some r1" by (simp add: s1_def update_conv')
  have m2: "map_of (friends s2) email = Some r2" by (simp add: s2_def update_conv')
  have g1: "get_prop s1 u = g" by (rule ext) (simp add: s1_def g_def)
  have g2: "get_prop s2 u = g" by (rule ext) (simp add: s2_def g_def)
  have p1: "put_field F_firstName email u (\<sigma>, []) = (s1, n1)"
    by (simp only: put_field_own [OF assms] s1_def r1_def n1_def g_def append_Nil)
  have p2: "put_field F_lastName email u (s1, n1) = (s2, n1 @ n2)"
    by (simp only: put_field_own [OF m1] g1) (simp add: s1_def s2_def r2_def n2_def)
  have p3: "put_field F_DOB email u (s2, n1 @ n2) = (s3, (n1 @ n2) @ n3)"
    by (simp only: put_field_own [OF m2] g2) (simp add: s2_def s3_def r3_def n3_def)
  have r: "r3 = apply_updates r g"
    by (simp add: r3_def r2_def r1_def apply_updates_def split: option.splits)
  have l1: "get_field F_lastName r1 = get_field F_lastName r"
    by (simp add: r1_def split: option.splits)
  have d2: "get_field F_DOB r2 = get_field F_DOB r"
    by (simp add: r2_def r1_def split: option.splits)
  have n: "(n1 @ n2) @ n3 = changed_fields r g"
    unfolding n1_def n2_def n3_def l1 d2
    by (simp add: changed_fields_def split: option.splits)
  show ?thesis
    unfolding put_fields_def p1 p2 p3 n r s3_def g_def ..
qed

lemma get_field_apply_updates:
  "g (field_name f) = Some v \<Longrightarrow> get_field f (apply_updates r g) = v"
  by (cases f) (simp_all add: apply_updates_def split: option.splits)

lemma get_field_apply_updates_absent:
  "g (field_name f) = None \<Longrightarrow> get_field f (apply_updates r g) = get_field f r"
  by (cases f) (simp_all add: apply_updates_def split: option.splits)

lemma in_changed_fields:
  "field_name f \<in> set (changed_fields r g) \<longleftrightarrow>
     (\<exists>v. g (field_name f) = Some v \<and> v \<noteq> get_field f r)"
  by (cases f) (auto simp: changed_fields_def split: option.splits)

lemma changed_fields_Nil:
  "changed_fields r g = [] \<longleftrightarrow> (\<forall>f v. g (field_name f) = Some v \<longrightarrow> v = get_field f r)"
proof
  assume "changed_fields r g = []"
  then have "\<forall>f. field_name f \<notin> set (changed_fields r g)" by simp
  then show "\<forall>f v. g (field_name f) = Some v \<longrightarrow> v = get_field f r"
    by (auto simp: in_changed_fields)
next
  assume a: "\<forall>f v. g (field_name f) = Some v \<longrightarrow> v = get_field f r"
  have "g ''firstName'' = Some v \<Longrightarrow> v = firstName r" for v
    using a [rule_format, of F_firstName v] by simp
  moreover have "g ''lastName'' = Some v \<Longrightarrow> v = lastName r" for v
    using a [rule_format, of F_lastName v] by simp
  moreover have "g ''DOB'' = Some v \<Longrightarrow> v = DOB r" for v
    using a [rule_format, of F_DOB v] by simp
  ultimately show "changed_fields r g = []"
    by (auto simp: changed_fields_def split: option.splits)
qed

lemma apply_updates_unchanged:
  "changed_fields r g = [] \<Longrightarrow> apply_updates r g = r"
  by (auto simp: changed_fields_def apply_updates_def split: option.splits if_splits)

lemma router_put_own:
  assumes "map_of (friends \<sigma>) email = Some r"
  shows "router_put \<sigma> email u =
           (Updated (Rec (apply_updates r (get_prop \<sigma> u)))
              (if changed_fields r (get_prop \<sigma> u) = [] then None
               else Some (changed_fields r (get_prop \<sigma> u))),
            \<sigma>\<lparr>friends := AList.update email (apply_updates r (get_prop \<sigma> u)) (friends \<sigma>)\<rparr>)"
  by (simp add: router_put_def friends_at_own [OF assms] put_fields_own [OF assms]
      friends_at_own update_conv')

subsection \<open>Substrings\<close>

lemma str_includes_sublist: "str_includes s t \<longleftrightarrow> sublist t s"
proof (induction s)
  case Nil
  then show ?case by auto
next
  case (Cons c cs)
  have "take (length t) (c # cs) = t \<longleftrightarrow> prefix t (c # cs)"
    by (metis append_take_drop_id prefix_def append_eq_conv_conj)
  with Cons show ?case by (simp add: sublist_Cons_right)
qed

lemma str_includes_char: "str_includes s [c] \<longleftrightarrow> c \<in> set s"
  by (induction s) auto

subsection \<open>Keys of the store and the invariant\<close>

lemma map_of_None_keys: "map_of (friends \<sigma>) e = None \<longleftrightarrow> e \<notin> set (keys \<sigma>)"
  by (simp add: keys_def map_of_eq_None_iff)

lemma own_key: "map_of (friends \<sigma>) e = Some r \<Longrightarrow> e \<in> set (keys \<sigma>)"
  using map_of_None_keys [of \<sigma> e] by auto

lemma truthy_friends_at_own:
  "\<not> truthy (friends_at \<sigma> e) \<Longrightarrow> map_of (friends \<sigma>) e = None"
  by (auto simp: friends_at_def split: option.splits)

lemma keys_update:
  "keys (\<sigma>\<lparr>friends := AList.update e r (friends \<sigma>)\<rparr>) =
     (if e \<in> set (keys \<sigma>) then keys \<sigma> else keys \<sigma> @ [e])"
  by (simp add: keys_def update_keys)

lemma keys_delete:
  "keys (\<sigma>\<lparr>friends := AList.delete e (friends \<sigma>)\<rparr>) = removeAll e (keys \<sigma>)"
proof -
  have "map fst (AList.delete e al) = removeAll e (map fst al)" for al :: "(string \<times> friend) list"
    by (induction al) auto
  then show ?thesis by (simp add: keys_def)
qed

lemma keys_builtins_update [simp]: "keys (\<sigma>\<lparr>builtins := b\<rparr>) = keys \<sigma>"
  by (simp add: keys_def)

lemma store_inv_initial: "store_inv initial_store"
  by (simp add: store_inv_def initial_store_def keys_def str_includes_char)

lemma store_inv_update:
  "store_inv \<sigma> \<Longrightarrow> e \<in> set (keys \<sigma>) \<or> str_includes e ''@'' \<Longrightarrow>
     store_inv (\<sigma>\<lparr>friends := AList.update e r (friends \<sigma>)\<rparr>)"
  by (auto simp: store_inv_def keys_update)

lemma store_inv_post: "store_inv \<sigma> \<Longrightarrow> store_inv (snd (router_post \<sigma> body))"
  by (auto simp: router_post_def Let_def store_inv_update split: option.splits)

lemma store_inv_assign: "store_inv \<sigma> \<Longrightarrow> store_inv (assign_field \<sigma> email f v)"
proof (cases "friends_at \<sigma> email")
  case (Rec r)
  then have "email \<in> set (keys \<sigma>)"
    using map_of_None_keys [of \<sigma> email]
    by (auto simp: friends_at_def split: option.splits if_splits)
  moreover assume "store_inv \<sigma>"
  ultimately show ?thesis
    by (simp add: assign_field_def Rec store_inv_update)
next
  case (Builtin n)
  moreover assume "store_inv \<sigma>"
  ultimately show ?thesis
    by (auto simp: assign_field_def store_inv_def)
qed (simp_all add: assign_field_def)

lemma store_inv_put_field:
  "store_inv (fst p) \<Longrightarrow> store_inv (fst (put_field f email u p))"
  by (cases p) (auto simp: store_inv_assign split: option.splits)

lemma store_inv_put: "store_inv \<sigma> \<Longrightarrow> store_inv (snd (router_put \<sigma> email u))"
proof -
  assume a: "store_inv \<sigma>"
  have "store_inv (fst (put_fields email u \<sigma>))"
    unfolding put_fields_def using a by (intro store_inv_put_field) simp
  then show ?thesis
    using a by (auto simp: router_put_def split: prod.splits)
qed

lemma store_inv_delete: "store_inv \<sigma> \<Longrightarrow> store_inv (snd (router_delete \<sigma> email))"
  by (auto simp: router_delete_def store_inv_def keys_delete distinct_removeAll Let_def)

lemma store_inv_router: "store_inv \<sigma> \<Longrightarrow> store_inv (snd (router \<sigma> req))"
  by (cases req) (simp_all add: store_inv_post store_inv_put store_inv_delete)

lemma reachable_inv: "reachable \<sigma> \<Longrightarrow> store_inv \<sigma>"
  by (induction rule: reachable.induct) (simp_all add: store_inv_initial store_inv_router)

lemma reachable_run: "reachable \<sigma> \<Longrightarrow> reachable (run \<sigma> reqs)"
  by (induction reqs arbitrary: \<sigma>) (simp_all add: reachable_step)

subsection \<open>Create\<close>

text \<open>A create that answers 201 has passed the three checks and appended one record.\<close>

lemma router_post_created:
  assumes "router_post \<sigma> body = (Created d, \<sigma>')"
  shows "\<exists>email fn ln dob.
           get_prop \<sigma> body ''email'' = Some email \<and> get_prop \<sigma> body ''firstName'' = Some fn \<and>
           get_prop \<sigma> body ''lastName'' = Some ln \<and> get_prop \<sigma> body ''DOB'' = Some dob \<and>
           email \<noteq> [] \<and> fn \<noteq> [] \<and> ln \<noteq> [] \<and> dob \<noteq> [] \<and>
           str_includes email ''@'' \<and> str_includes email ''.'' \<and>
           map_of (friends \<sigma>) email = None \<and>
           d = Rec \<lparr>firstName = fn, lastName = ln, DOB = dob\<rparr> \<and>
           \<sigma>' = \<sigma>\<lparr>friends := friends \<sigma> @ [(email, \<lparr>firstName = fn, lastName = ln, DOB = dob\<rparr>)]\<rparr>"
proof -
  have app: "map_of al k = None \<Longrightarrow> AList.update k v al = al @ [(k, v)]"
    for al :: "(string \<times> friend) list" and k v
    by (induction al) (auto split: if_splits)
  from assms show ?thesis
    by (auto simp: router_post_def Let_def app friends_at_own update_conv'
        dest!: truthy_friends_at_own split: option.splits if_splits)
qed

lemma delete_appended:
  "map_of al k = None \<Longrightarrow> AList.delete k (al @ [(k, v)]) = al"
  by (induction al) (auto split: if_splits)

subsection \<open>Update: changed fields\<close>

text \<open>
  C1 (as amended). For a record \<open>r\<close> stored under \<open>email\<close> and any partial fields, the
  update answers 200 with the stored record after the update and a list \<open>names\<close> of
  changed field names. Every field present in the partial fields holds the incoming
  value afterwards, and its name is in \<open>names\<close> exactly when the incoming value differs
  from the value stored before; a provided field with the stored value is not recorded.
  Whenever \<open>names\<close> is empty, the record and the store are unchanged and the response
  carries no list at all: the property \<^verbatim>\<open>updatedFields\<close> is \<^verbatim>\<open>undefined\<close>, not an empty
  list. As long as \<^verbatim>\<open>Object.prototype\<close> has none of the properties \<^verbatim>\<open>firstName\<close>,
  \<^verbatim>\<open>lastName\<close>, \<^verbatim>\<open>DOB\<close>, only provided fields are recorded, and \<open>names\<close> is empty
  exactly when no provided value differs from the stored one.
\<close>

theorem update_changed_semantics:
  assumes "map_of (friends \<sigma>) email = Some r"
  shows "\<exists>r' names \<sigma>'.
           router_put \<sigma> email updates =
             (Updated (Rec r') (if names = [] then None else Some names), \<sigma>') \<and>
           map_of (friends \<sigma>') email = Some r' \<and>
           (\<forall>f v. updates (field_name f) = Some v \<longrightarrow>
               get_field f r' = v \<and> (field_name f \<in> set names \<longleftrightarrow> v \<noteq> get_field f r)) \<and>
           (names = [] \<longrightarrow> \<sigma>' = \<sigma> \<and> r' = r) \<and>
           ((\<forall>f. object_prototype \<sigma> (field_name f) = None) \<longrightarrow>
              (\<forall>f. field_name f \<in> set names \<longrightarrow> updates (field_name f) \<noteq> None) \<and>
              (names = [] \<longleftrightarrow>
                 (\<forall>f v. updates (field_name f) = Some v \<longrightarrow> v = get_field f r)))"
proof -
  let ?g = "get_prop \<sigma> updates"
  let ?r = "apply_updates r ?g"
  let ?n = "changed_fields r ?g"
  let ?s = "\<sigma>\<lparr>friends := AList.update email ?r (friends \<sigma>)\<rparr>"
  have 1: "router_put \<sigma> email updates = (Updated (Rec ?r) (if ?n = [] then None else Some ?n), ?s)"
    by (rule router_put_own [OF assms])
  have 2: "map_of (friends ?s) email = Some ?r"
    by (simp add: update_conv')
  have 3: "\<forall>f v. updates (field_name f) = Some v \<longrightarrow>
               get_field f ?r = v \<and> (field_name f \<in> set ?n \<longleftrightarrow> v \<noteq> get_field f r)"
    by (auto simp: get_field_apply_updates get_prop_own in_changed_fields)
  have 4: "?n = [] \<longrightarrow> ?s = \<sigma> \<and> ?r = r"
    using assms by (simp add: apply_updates_unchanged update_triv)
  have 5: "(\<forall>f. field_name f \<in> set ?n \<longrightarrow> updates (field_name f) \<noteq> None) \<and>
           (?n = [] \<longleftrightarrow> (\<forall>f v. updates (field_name f) = Some v \<longrightarrow> v = get_field f r))"
    if p: "\<forall>f. object_prototype \<sigma> (field_name f) = None"
  proof -
    have g: "?g (field_name f) = updates (field_name f)" for f
      using p by (simp add: get_prop_pristine)
    show ?thesis
      by (auto simp: changed_fields_Nil in_changed_fields g)
  qed
  from 1 2 3 4 5 show ?thesis by blast
qed

theorem update_changed_semantics_witness:
  "map_of (friends initial_store) ''johnsmith@gmail.com''
     = Some \<lparr>firstName = ''John'', lastName = ''Doe'', DOB = ''22-12-1990''\<rparr> \<and>
   (\<forall>f. object_prototype initial_store (field_name f) = None) \<and>
   (\<exists>r' names \<sigma>'.
      router_put initial_store ''johnsmith@gmail.com'' [''firstName'' \<mapsto> ''Z''] =
        (Updated (Rec r') (if names = [] then None else Some names), \<sigma>') \<and>
      map_of (friends \<sigma>') ''johnsmith@gmail.com'' = Some r' \<and>
      firstName r' = ''Z'' \<and> ''firstName'' \<in> set names \<and> ''lastName'' \<notin> set names) \<and>
   router_put initial_store ''johnsmith@gmail.com'' [''firstName'' \<mapsto> ''John''] =
     (Updated (Rec \<lparr>firstName = ''John'', lastName = ''Doe'', DOB = ''22-12-1990''\<rparr>) None,
      initial_store)"
proof -
  let ?john = "\<lparr>firstName = ''John'', lastName = ''Doe'', DOB = ''22-12-1990''\<rparr>"
  have h: "map_of (friends initial_store) ''johnsmith@gmail.com'' = Some ?john"
    by (simp add: initial_store_def)
  have p: "\<forall>f. object_prototype initial_store (field_name f) = None"
    by (simp add: object_prototype_def initial_store_def)
  have A: "\<exists>r' names \<sigma>'.
      router_put initial_store ''johnsmith@gmail.com'' [''firstName'' \<mapsto> ''Z''] =
        (Updated (Rec r') (if names = [] then None else Some names), \<sigma>') \<and>
      map_of (friends \<sigma>') ''johnsmith@gmail.com'' = Some r' \<and>
      firstName r' = ''Z'' \<and> ''firstName'' \<in> set names \<and> ''lastName'' \<notin> set names"
  proof -
    from update_changed_semantics [OF h, of "[''firstName'' \<mapsto> ''Z'']"] p
    obtain r' names \<sigma>' where
      a: "router_put initial_store ''johnsmith@gmail.com'' [''firstName'' \<mapsto> ''Z''] =
          (Updated (Rec r') (if names = [] then None else Some names), \<sigma>')"
      and b: "map_of (friends \<sigma>') ''johnsmith@gmail.com'' = Some r'"
      and c: "\<forall>f v. [''firstName'' \<mapsto> ''Z''] (field_name f) = Some v \<longrightarrow>
                 get_field f r' = v \<and> (field_name f \<in> set names \<longleftrightarrow> v \<noteq> get_field f ?john)"
      and d: "\<forall>f. field_name f \<in> set names \<longrightarrow> [''firstName'' \<mapsto> ''Z''] (field_name f) \<noteq> None"
      by blast
    from c [rule_format, of F_firstName "''Z''"]
    have 1: "firstName r' = ''Z'' \<and> ''firstName'' \<in> set names" by simp
    from d [rule_format, of F_lastName] have 2: "''lastName'' \<notin> set names" by auto
    from a b 1 2 show ?thesis by blast
  qed
  have B: "router_put initial_store ''johnsmith@gmail.com'' [''firstName'' \<mapsto> ''John''] =
     (Updated (Rec ?john) None, initial_store)"
  proof -
    from update_changed_semantics [OF h, of "[''firstName'' \<mapsto> ''John'']"] p
    obtain r' names \<sigma>' where
      a: "router_put initial_store ''johnsmith@gmail.com'' [''firstName'' \<mapsto> ''John''] =
          (Updated (Rec r') (if names = [] then None else Some names), \<sigma>')"
      and e: "names = [] \<longrightarrow> \<sigma>' = initial_store \<and> r' = ?john"
      and n: "names = [] \<longleftrightarrow>
          (\<forall>f v. [''firstName'' \<mapsto> ''John''] (field_name f) = Some v \<longrightarrow> v = get_field f ?john)"
      by blast
    have "\<forall>f v. [''firstName'' \<mapsto> ''John''] (field_name f) = Some v \<longrightarrow> v = get_field f ?john"
    proof (intro allI impI)
      fix f v assume "[''firstName'' \<mapsto> ''John''] (field_name f) = Some v"
      then show "v = get_field f ?john" by (cases f) (simp_all split: if_splits)
    qed
    with n have "names = []" by blast
    with a e show ?thesis by simp
  qed
  from h p A B show ?thesis by blast
qed

text \<open>
  C1 as stated fails: an update of a stored record with its own first name changes
  nothing, and the response then has no list of changed fields, where the claim
  requires an empty list.
\<close>

theorem update_unchanged_list_absent:
  "router_put initial_store ''johnsmith@gmail.com'' [''firstName'' \<mapsto> ''John'']
     = (Updated (Rec \<lparr>firstName = ''John'', lastName = ''Doe'', DOB = ''22-12-1990''\<rparr>) None,
        initial_store)
   \<and> router_put initial_store ''johnsmith@gmail.com'' [''firstName'' \<mapsto> ''John'']
     \<noteq> (Updated (Rec \<lparr>firstName = ''John'', lastName = ''Doe'', DOB = ''22-12-1990''\<rparr>) (Some []),
        initial_store)"
  by (simp add: router_put_def put_fields_def friends_at_def initial_store_def get_prop_def
      object_prototype_def)

subsection \<open>List: the count\<close>

text \<open>
  C7. In every reachable state the list request answers 200 with the store and a
  count equal to the number of keys present. If a create answers 201 and a delete of
  the created email, made right after it, answers 200, then the count after the
  create is one more, and the count after the delete (also the \<^verbatim>\<open>remainingCount\<close> of
  the delete) is again the count before the create.
\<close>

theorem list_count:
  assumes "reachable \<sigma>"
  shows "router_get_all \<sigma> = FriendsList (friends \<sigma>) (card (set (keys \<sigma>))) \<and>
         status (router_get_all \<sigma>) = 200 \<and>
         (\<forall>body d \<sigma>1 email d' n \<sigma>2.
            router_post \<sigma> body = (Created d, \<sigma>1) \<and>
            get_prop \<sigma> body ''email'' = Some email \<and>
            router_delete \<sigma>1 email = (Deleted d' n, \<sigma>2) \<longrightarrow>
            router_get_all \<sigma>1 = FriendsList (friends \<sigma>1) (card (set (keys \<sigma>)) + 1) \<and>
            router_get_all \<sigma>2 = FriendsList (friends \<sigma>2) (card (set (keys \<sigma>))) \<and>
            n = card (set (keys \<sigma>)))"
proof -
  from assms have "distinct (keys \<sigma>)"
    by (auto dest: reachable_inv simp: store_inv_def)
  then have c: "card (set (keys \<sigma>)) = length (keys \<sigma>)"
    by (rule distinct_card)
  have 1: "router_get_all \<sigma> = FriendsList (friends \<sigma>) (card (set (keys \<sigma>)))"
    by (simp add: router_get_all_def c)
  have 2: "router_get_all \<sigma>1 = FriendsList (friends \<sigma>1) (card (set (keys \<sigma>)) + 1) \<and>
           router_get_all \<sigma>2 = FriendsList (friends \<sigma>2) (card (set (keys \<sigma>))) \<and>
           n = card (set (keys \<sigma>))"
    if p: "router_post \<sigma> body = (Created d, \<sigma>1)"
      and e: "get_prop \<sigma> body ''email'' = Some email"
      and d: "router_delete \<sigma>1 email = (Deleted d' n, \<sigma>2)"
    for body d \<sigma>1 email d' n \<sigma>2
  proof -
    from router_post_created [OF p] e obtain r where
      none: "map_of (friends \<sigma>) email = None"
      and s1: "\<sigma>1 = \<sigma>\<lparr>friends := friends \<sigma> @ [(email, r)]\<rparr>"
      by auto
    have "friends_at \<sigma>1 email = Rec r"
      by (rule friends_at_own) (simp add: s1 none map_add_Some_iff)
    with d have s2: "\<sigma>2 = \<sigma>" and n: "n = length (keys \<sigma>)"
      by (auto simp: router_delete_def Let_def s1 delete_appended [OF none])
    show ?thesis
      by (simp add: router_get_all_def c s2 n) (simp add: s1 keys_def)
  qed
  from 1 2 show ?thesis by (simp add: 1) blast
qed

theorem list_count_witness:
  "reachable initial_store \<and>
   router_get_all initial_store = FriendsList (friends initial_store) 3 \<and>
   router_get_all (snd (router_delete (snd (router_post initial_store
       [''email'' \<mapsto> ''a@b.com'', ''firstName'' \<mapsto> ''A'', ''lastName'' \<mapsto> ''B'',
        ''DOB'' \<mapsto> ''01-01-2000''])) ''a@b.com'')) = FriendsList (friends initial_store) 3"
proof -
  let ?body = "[''email'' \<mapsto> ''a@b.com'', ''firstName'' \<mapsto> ''A'', ''lastName'' \<mapsto> ''B'',
        ''DOB'' \<mapsto> ''01-01-2000'']"
  let ?r = "\<lparr>firstName = ''A'', lastName = ''B'', DOB = ''01-01-2000''\<rparr>"
  let ?s1 = "initial_store\<lparr>friends := friends initial_store @ [(''a@b.com'', ?r)]\<rparr>"
  have k: "card (set (keys initial_store)) = 3"
    by (simp add: keys_def initial_store_def)
  have p: "router_post initial_store ?body = (Created (Rec ?r), ?s1)"
    by (simp add: router_post_def get_prop_def object_prototype_def initial_store_def
        friends_at_def object_prototype_names_def)
  have e: "get_prop initial_store ?body ''email'' = Some ''a@b.com''"
    by (simp add: get_prop_def)
  have d: "router_delete ?s1 ''a@b.com'' = (Deleted (Rec ?r) 3, initial_store)"
    by (simp add: router_delete_def friends_at_def initial_store_def keys_def)
  note L = list_count [OF reachable_init]
  from L have a: "router_get_all initial_store
      = FriendsList (friends initial_store) (card (set (keys initial_store)))"
    by (rule conjunct1)
  from L p e d have b: "router_get_all initial_store
      = FriendsList (friends initial_store) (card (set (keys initial_store)))"
    by blast
  show ?thesis
    unfolding p d snd_conv using a b reachable_init by (simp only: k simp_thms)
qed

subsection \<open>The initial store\<close>

text \<open>
  C9. The store does not start empty: at process start its keys are the three emails
  below, the first list request answers with count 3, and a create for one of those
  emails, with the other three fields non-empty, is refused as a duplicate and leaves
  the store as it is.
\<close>

theorem initial_friends:
  "keys initial_store = [''johnsmith@gmail.com'', ''annasmith@gmail.com'', ''peterjones@gmail.com''] \<and>
   router_get_all initial_store = FriendsList (friends initial_store) 3 \<and>
   (\<forall>email body.
      email \<in> set (keys initial_store) \<and> body ''email'' = Some email \<and>
      \<not> falsy (body ''firstName'') \<and> \<not> falsy (body ''lastName'') \<and> \<not> falsy (body ''DOB'') \<longrightarrow>
      router_post initial_store body = (AlreadyExists email, initial_store))"
proof -
  have 1: "keys initial_store =
      [''johnsmith@gmail.com'', ''annasmith@gmail.com'', ''peterjones@gmail.com'']"
    by (simp add: keys_def initial_store_def)
  have 2: "router_get_all initial_store = FriendsList (friends initial_store) 3"
    by (simp add: router_get_all_def 1)
  have 3: "router_post initial_store body = (AlreadyExists email, initial_store)"
    if k: "email \<in> set (keys initial_store)" and e: "body ''email'' = Some email"
      and f: "\<not> falsy (body ''firstName'')" "\<not> falsy (body ''lastName'')" "\<not> falsy (body ''DOB'')"
    for email body
  proof -
    from f obtain fn ln dob where
      b: "body ''firstName'' = Some fn" "body ''lastName'' = Some ln" "body ''DOB'' = Some dob"
      and n: "fn \<noteq> []" "ln \<noteq> []" "dob \<noteq> []"
      by (auto elim!: falsy.elims)
    from k obtain r where own: "map_of (friends initial_store) email = Some r"
      using map_of_None_keys [of initial_store email] by auto
    from k have i: "str_includes email ''@''" "str_includes email ''.''" "email \<noteq> []"
      by (auto simp: 1 str_includes_char)
    show ?thesis
      by (simp add: router_post_def get_prop_own e b n i friends_at_own [OF own])
  qed
  from 1 2 3 show ?thesis by blast
qed

theorem initial_friends_witness:
  "''annasmith@gmail.com'' \<in> set (keys initial_store) \<and>
   router_post initial_store
     [''email'' \<mapsto> ''annasmith@gmail.com'', ''firstName'' \<mapsto> ''Anna'', ''lastName'' \<mapsto> ''S'',
      ''DOB'' \<mapsto> ''02-07-1983'']
   = (AlreadyExists ''annasmith@gmail.com'', initial_store)"
proof -
  let ?body = "[''email'' \<mapsto> ''annasmith@gmail.com'', ''firstName'' \<mapsto> ''Anna'',
      ''lastName'' \<mapsto> ''S'', ''DOB'' \<mapsto> ''02-07-1983'']"
  have k: "''annasmith@gmail.com'' \<in> set (keys initial_store)"
    by (simp add: keys_def initial_store_def)
  have b: "?body ''email'' = Some ''annasmith@gmail.com''" "\<not> falsy (?body ''firstName'')"
    "\<not> falsy (?body ''lastName'')" "\<not> falsy (?body ''DOB'')"
    by simp_all
  from initial_friends k b
  have "router_post initial_store ?body = (AlreadyExists ''annasmith@gmail.com'', initial_store)"
    by blast
  with k show ?thesis ..
qed

subsection \<open>Delete\<close>

text \<open>
  C5, at an email that is no key of the store. \<^verbatim>\<open>friends['toString']\<close> is the function
  that the store object inherits from \<^verbatim>\<open>Object.prototype\<close>, so the existence check
  \<^verbatim>\<open>if (!friends[email])\<close> lets the request pass: the answer is 200 with the copy of
  the function's enumerable properties as data and \<^verbatim>\<open>remainingCount\<close> 3, not 404.
\<close>

theorem delete_inherited_name:
  "''toString'' \<notin> set (keys initial_store) \<and>
   router_delete initial_store ''toString'' = (Deleted (Builtin ''toString'') 3, initial_store) \<and>
   router_delete initial_store ''toString'' \<noteq> (NotFound ''toString'', initial_store)"
  by (simp add: router_delete_def friends_at_def initial_store_def object_prototype_names_def
      keys_def)

text \<open>
  What holds of delete: for a key of the store in a reachable state it returns the
  record as stored and the count after the removal, the key is gone, and a get of the
  email then answers 404; for an email that is neither a key nor an inherited name
  it answers 404 and leaves the store as it is.
\<close>

lemma not_inherited_absent:
  assumes "store_inv \<sigma>" "map_of (friends \<sigma>) email = None" "str_includes email ''@''"
  shows "friends_at \<sigma> email = Undefined"
proof -
  have "email \<notin> set object_prototype_names"
    using assms(3) by (auto simp: str_includes_char object_prototype_names_def)
  moreover have "email \<notin> range field_name"
  proof
    assume "email \<in> range field_name"
    then obtain f where "email = field_name f" by blast
    with assms(3) show False by (cases f) (simp_all add: str_includes_char)
  qed
  with assms(1) have "object_prototype \<sigma> email = None"
    by (auto simp: store_inv_def object_prototype_def)
  ultimately show ?thesis
    using assms(2) by (simp add: friends_at_def)
qed

lemma delete_stored:
  assumes "reachable \<sigma>" "map_of (friends \<sigma>) email = Some r"
  shows "\<exists>\<sigma>'. router_delete \<sigma> email = (Deleted (Rec r) (length (keys \<sigma>) - 1), \<sigma>') \<and>
           email \<notin> set (keys \<sigma>') \<and> router_get \<sigma>' email = NotFound email \<and>
           (\<forall>e. e \<noteq> email \<longrightarrow> map_of (friends \<sigma>') e = map_of (friends \<sigma>) e)"
proof -
  let ?s = "\<sigma>\<lparr>friends := AList.delete email (friends \<sigma>)\<rparr>"
  from assms(1) have inv: "store_inv \<sigma>" by (rule reachable_inv)
  then have inv': "store_inv ?s"
    using store_inv_delete [of \<sigma> email]
    by (simp add: router_delete_def friends_at_own [OF assms(2)] Let_def)
  have k: "email \<in> set (keys \<sigma>)" by (rule own_key [OF assms(2)])
  with inv have at: "str_includes email ''@''" and d: "distinct (keys \<sigma>)"
    by (auto simp: store_inv_def)
  have len: "length (keys ?s) = length (keys \<sigma>) - 1"
    using d k by (simp add: keys_delete distinct_remove1_removeAll [symmetric] length_remove1)
  have none: "map_of (friends ?s) email = None"
    by (simp add: delete_conv')
  have 1: "router_delete \<sigma> email = (Deleted (Rec r) (length (keys \<sigma>) - 1), ?s)"
    by (simp add: router_delete_def friends_at_own [OF assms(2)] Let_def len)
  have 2: "email \<notin> set (keys ?s)"
    by (simp add: keys_delete)
  have 3: "router_get ?s email = NotFound email"
    by (simp add: router_get_def not_inherited_absent [OF inv' none at])
  have 4: "\<forall>e. e \<noteq> email \<longrightarrow> map_of (friends ?s) e = map_of (friends \<sigma>) e"
    by simp
  from 1 2 3 4 show ?thesis by blast
qed

lemma delete_absent:
  "friends_at \<sigma> email = Undefined \<Longrightarrow> router_delete \<sigma> email = (NotFound email, \<sigma>)"
  by (simp add: router_delete_def)

subsection \<open>Update: the fields that are not provided\<close>

text \<open>
  C8, in a state that requests can reach. \<^verbatim>\<open>PUT /friends/__proto__\<close> passes the
  existence check, because \<^verbatim>\<open>friends['__proto__']\<close> is \<^verbatim>\<open>Object.prototype\<close>, and the
  assignment then defines \<^verbatim>\<open>firstName\<close> on \<^verbatim>\<open>Object.prototype\<close>. From then on every
  parsed body inherits that property: an update of a stored record that provides only
  \<^verbatim>\<open>lastName\<close> also overwrites the first name of the record.
\<close>

theorem update_inherited_field:
  "reachable (run initial_store [Put ''__proto__'' [''firstName'' \<mapsto> ''x'']]) \<and>
   map_of (friends (run initial_store [Put ''__proto__'' [''firstName'' \<mapsto> ''x'']]))
     ''johnsmith@gmail.com''
     = Some \<lparr>firstName = ''John'', lastName = ''Doe'', DOB = ''22-12-1990''\<rparr> \<and>
   fst (router_put (run initial_store [Put ''__proto__'' [''firstName'' \<mapsto> ''x'']])
          ''johnsmith@gmail.com'' [''lastName'' \<mapsto> ''y''])
     = Updated (Rec \<lparr>firstName = ''x'', lastName = ''y'', DOB = ''22-12-1990''\<rparr>)
         (Some [''firstName'', ''lastName'']) \<and>
   map_of (friends (run initial_store
       [Put ''__proto__'' [''firstName'' \<mapsto> ''x''],
        Put ''johnsmith@gmail.com'' [''lastName'' \<mapsto> ''y'']]))
     ''johnsmith@gmail.com''
     = Some \<lparr>firstName = ''x'', lastName = ''y'', DOB = ''22-12-1990''\<rparr>"
proof -
  let ?s = "initial_store\<lparr>builtins := (\<lambda>n. Map.empty)(''__proto__'' := [''firstName'' \<mapsto> ''x''])\<rparr>"
  let ?r = "\<lparr>firstName = ''x'', lastName = ''y'', DOB = ''22-12-1990''\<rparr>"
  have r: "run initial_store [Put ''__proto__'' [''firstName'' \<mapsto> ''x'']] = ?s"
    by (simp add: router_put_def put_fields_def friends_at_def initial_store_def get_prop_def
      object_prototype_def object_prototype_names_def assign_field_def)
  have own: "map_of (friends ?s) ''johnsmith@gmail.com''
     = Some \<lparr>firstName = ''John'', lastName = ''Doe'', DOB = ''22-12-1990''\<rparr>"
    by (simp add: initial_store_def)
  have put: "router_put ?s ''johnsmith@gmail.com'' [''lastName'' \<mapsto> ''y'']
     = (Updated (Rec ?r) (Some [''firstName'', ''lastName'']),
        ?s\<lparr>friends := AList.update ''johnsmith@gmail.com'' ?r (friends ?s)\<rparr>)"
    by (simp add: router_put_own [OF own] apply_updates_def changed_fields_def get_prop_def
        object_prototype_def)
  have r2: "run initial_store
       [Put ''__proto__'' [''firstName'' \<mapsto> ''x''],
        Put ''johnsmith@gmail.com'' [''lastName'' \<mapsto> ''y'']]
     = ?s\<lparr>friends := AList.update ''johnsmith@gmail.com'' ?r (friends ?s)\<rparr>"
    using r by (simp add: put)
  have after: "map_of (friends (?s\<lparr>friends := AList.update ''johnsmith@gmail.com'' ?r (friends ?s)\<rparr>))
      ''johnsmith@gmail.com'' = Some ?r"
    by (simp add: update_conv')
  show ?thesis
    unfolding r r2 put fst_conv
    using own after reachable_run [OF reachable_init, of "[Put ''__proto__'' [''firstName'' \<mapsto> ''x'']]"]
    by (simp only: r simp_thms)
qed

text \<open>
  What holds of update: the records under all other emails, the keys and the built-in
  objects are left as they are, and a field that the handler reads as \<^verbatim>\<open>undefined\<close>
  keeps its value; while \<^verbatim>\<open>Object.prototype\<close> has no such property, these are the
  fields that the body does not provide.
\<close>

lemma update_frame:
  assumes "map_of (friends \<sigma>) email = Some r" "router_put \<sigma> email u = (rep, \<sigma>')"
  shows "(\<forall>e. e \<noteq> email \<longrightarrow> map_of (friends \<sigma>') e = map_of (friends \<sigma>) e) \<and>
         keys \<sigma>' = keys \<sigma> \<and> builtins \<sigma>' = builtins \<sigma> \<and>
         (\<exists>r'. map_of (friends \<sigma>') email = Some r' \<and>
            (\<forall>f. get_prop \<sigma> u (field_name f) = None \<longrightarrow> get_field f r' = get_field f r))"
  using assms own_key [OF assms(1)]
  by (auto simp: router_put_own [OF assms(1)] update_conv' keys_update
      get_field_apply_updates_absent)

subsection \<open>Create, updates, get\<close>

lemma apply_changed_reply:
  "apply_changed r (Updated (Rec (apply_updates r g))
      (if changed_fields r g = [] then None else Some (changed_fields r g))) = apply_updates r g"
proof (cases "changed_fields r g = []")
  case True
  then show ?thesis by (simp add: apply_updates_unchanged)
next
  case False
  define d where "d = apply_updates r g"
  define ns where "ns = changed_fields r g"
  define step where
    "step = (\<lambda>f r'. if field_name f \<in> set ns then set_field f (get_field f d) r' else r')"
  have eq: "step f r' = set_field f (get_field f d) r'" if "get_field f r' = get_field f r" for f r'
  proof (cases "field_name f \<in> set ns")
    case True
    then show ?thesis by (simp add: step_def)
  next
    case False
    then have "get_field f d = get_field f r"
      unfolding ns_def d_def
      by (cases "g (field_name f)")
        (auto simp: in_changed_fields get_field_apply_updates get_field_apply_updates_absent)
    with False that show ?thesis
      using set_field_same [of f r'] by (simp add: step_def)
  qed
  define r1 where "r1 = set_field F_firstName (get_field F_firstName d) r"
  define r2 where "r2 = set_field F_lastName (get_field F_lastName d) r1"
  have a1: "step F_firstName r = r1"
    unfolding r1_def by (rule eq) simp
  have a2: "step F_lastName r1 = r2"
    unfolding r2_def by (rule eq) (simp add: r1_def)
  have a3: "step F_DOB r2 = set_field F_DOB (get_field F_DOB d) r2"
    by (rule eq) (simp add: r2_def r1_def)
  have "apply_changed r (Updated (Rec d) (Some ns)) = step F_DOB (step F_lastName (step F_firstName r))"
    by (simp add: step_def)
  also have "\<dots> = set_field F_DOB (get_field F_DOB d) r2"
    by (simp only: a1 a2 a3)
  also have "\<dots> = d"
    by (simp add: r2_def r1_def)
  finally show ?thesis
    using False by (simp add: d_def ns_def)
qed

lemma get_prop_cong_builtins:
  "builtins \<sigma>' = builtins \<sigma> \<Longrightarrow> get_prop \<sigma>' u = get_prop \<sigma> u"
  by (rule ext) (simp add: get_prop_def object_prototype_def split: option.splits)

lemma run_updates_own:
  assumes "map_of (friends \<sigma>) email = Some r" "run_updates \<sigma> email us = (reps, \<sigma>n)"
  shows "map_of (friends \<sigma>n) email = Some (foldl apply_changed r reps) \<and>
         builtins \<sigma>n = builtins \<sigma> \<and> length reps = length us \<and>
         (\<forall>rep \<in> set reps. status rep = 200) \<and>
         foldl apply_changed r reps = foldl (\<lambda>r u. apply_updates r (get_prop \<sigma> u)) r us"
  using assms
proof (induction us arbitrary: \<sigma> r reps)
  case Nil
  then show ?case by simp
next
  case (Cons u us)
  let ?r = "apply_updates r (get_prop \<sigma> u)"
  let ?n = "changed_fields r (get_prop \<sigma> u)"
  let ?rep = "Updated (Rec ?r) (if ?n = [] then None else Some ?n)"
  let ?s = "\<sigma>\<lparr>friends := AList.update email ?r (friends \<sigma>)\<rparr>"
  have put: "router_put \<sigma> email u = (?rep, ?s)"
    by (rule router_put_own [OF Cons.prems(1)])
  obtain reps' where run: "run_updates ?s email us = (reps', \<sigma>n)" and reps: "reps = ?rep # reps'"
    using Cons.prems(2) by (auto simp: put split: prod.splits)
  have own: "map_of (friends ?s) email = Some ?r"
    by (simp add: update_conv')
  have g: "get_prop ?s = get_prop \<sigma>"
    by (rule ext, rule get_prop_cong_builtins) simp
  from Cons.IH [OF own run]
  show ?case
    by (simp add: reps apply_changed_reply g)
qed

text \<open>
  C6. After a create that answers 201 and any sequence of updates of the created
  email, every update has answered 200, and the get of that email returns the record
  obtained from the created one by applying, in order, the changed fields of each
  update: the fields named in its list of changed fields, with their values in the
  record it returned. The created record holds the fields of the body. While
  \<^verbatim>\<open>Object.prototype\<close> has none of the three properties, the changed fields of an
  update are the fields that its body provides with a new value, so that the result
  is also the created record overwritten by the bodies in order.
\<close>

theorem create_update_get_roundtrip:
  assumes "router_post \<sigma> body = (Created d, \<sigma>0)"
    and "get_prop \<sigma> body ''email'' = Some email"
    and "run_updates \<sigma>0 email us = (reps, \<sigma>n)"
  shows "\<exists>r0. d = Rec r0 \<and>
           (\<forall>f v. body (field_name f) = Some v \<longrightarrow> get_field f r0 = v) \<and>
           length reps = length us \<and> (\<forall>rep \<in> set reps. status rep = 200) \<and>
           router_get \<sigma>n email = FriendFound (Rec (foldl apply_changed r0 reps)) \<and>
           ((\<forall>f. object_prototype \<sigma> (field_name f) = None) \<longrightarrow>
              foldl apply_changed r0 reps = foldl apply_updates r0 us)"
proof -
  from router_post_created [OF assms(1)] assms(2) obtain fn ln dob where
    b: "get_prop \<sigma> body ''firstName'' = Some fn" "get_prop \<sigma> body ''lastName'' = Some ln"
       "get_prop \<sigma> body ''DOB'' = Some dob"
    and none: "map_of (friends \<sigma>) email = None"
    and d: "d = Rec \<lparr>firstName = fn, lastName = ln, DOB = dob\<rparr>"
    and s0: "\<sigma>0 = \<sigma>\<lparr>friends := friends \<sigma> @ [(email, \<lparr>firstName = fn, lastName = ln, DOB = dob\<rparr>)]\<rparr>"
    by auto
  let ?r0 = "\<lparr>firstName = fn, lastName = ln, DOB = dob\<rparr>"
  have own: "map_of (friends \<sigma>0) email = Some ?r0"
    by (simp add: s0 none map_add_Some_iff)
  have g: "get_prop \<sigma>0 = get_prop \<sigma>"
    by (rule ext, rule get_prop_cong_builtins) (simp add: s0)
  note R = run_updates_own [OF own assms(3)]
  have 1: "\<forall>f v. body (field_name f) = Some v \<longrightarrow> get_field f ?r0 = v"
  proof (intro allI impI)
    fix f v assume "body (field_name f) = Some v"
    then have "get_prop \<sigma> body (field_name f) = Some v" by (rule get_prop_own)
    with b show "get_field f ?r0 = v" by (cases f) simp_all
  qed
  have 2: "router_get \<sigma>n email = FriendFound (Rec (foldl apply_changed ?r0 reps))"
    using R by (simp add: router_get_def friends_at_own)
  have 3: "foldl apply_changed ?r0 reps = foldl apply_updates ?r0 us"
    if "\<forall>f. object_prototype \<sigma> (field_name f) = None"
  proof -
    have "apply_updates r (get_prop \<sigma> u) = apply_updates r u" for r u
    proof -
      have "get_prop \<sigma> u (field_name f) = u (field_name f)" for f
        using that by (simp add: get_prop_def split: option.splits)
      from this [of F_firstName] this [of F_lastName] this [of F_DOB]
      show ?thesis by (simp add: apply_updates_def)
    qed
    with R show ?thesis by (simp add: g)
  qed
  from d 1 2 3 R show ?thesis by blast
qed

theorem create_update_get_roundtrip_witness:
  "router_post initial_store
     [''email'' \<mapsto> ''a@b.com'', ''firstName'' \<mapsto> ''A'', ''lastName'' \<mapsto> ''B'',
      ''DOB'' \<mapsto> ''01-01-2000'']
     = (Created (Rec \<lparr>firstName = ''A'', lastName = ''B'', DOB = ''01-01-2000''\<rparr>),
        initial_store\<lparr>friends := friends initial_store @
          [(''a@b.com'', \<lparr>firstName = ''A'', lastName = ''B'', DOB = ''01-01-2000''\<rparr>)]\<rparr>) \<and>
   router_get
     (snd (run_updates
        (initial_store\<lparr>friends := friends initial_store @
          [(''a@b.com'', \<lparr>firstName = ''A'', lastName = ''B'', DOB = ''01-01-2000''\<rparr>)]\<rparr>)
        ''a@b.com'' [[''firstName'' \<mapsto> ''A''], [''firstName'' \<mapsto> ''Z'', ''DOB'' \<mapsto> ''02-02-2002'']]))
     ''a@b.com''
     = FriendFound (Rec \<lparr>firstName = ''Z'', lastName = ''B'', DOB = ''02-02-2002''\<rparr>)"
proof -
  let ?body = "[''email'' \<mapsto> ''a@b.com'', ''firstName'' \<mapsto> ''A'', ''lastName'' \<mapsto> ''B'',
      ''DOB'' \<mapsto> ''01-01-2000'']"
  let ?r0 = "\<lparr>firstName = ''A'', lastName = ''B'', DOB = ''01-01-2000''\<rparr>"
  let ?s0 = "initial_store\<lparr>friends := friends initial_store @ [(''a@b.com'', ?r0)]\<rparr>"
  let ?us = "[[''firstName'' \<mapsto> ''A''], [''firstName'' \<mapsto> ''Z'', ''DOB'' \<mapsto> ''02-02-2002'']]"
  have p: "router_post initial_store ?body = (Created (Rec ?r0), ?s0)"
    by (simp add: router_post_def get_prop_def object_prototype_def initial_store_def
        friends_at_def object_prototype_names_def)
  have e: "get_prop initial_store ?body ''email'' = Some ''a@b.com''"
    by (simp add: get_prop_def)
  have pr: "\<forall>f. object_prototype initial_store (field_name f) = None"
    by (simp add: object_prototype_def initial_store_def)
  obtain reps sn where r: "run_updates ?s0 ''a@b.com'' ?us = (reps, sn)"
    by (cases "run_updates ?s0 ''a@b.com'' ?us")
  from create_update_get_roundtrip [OF p e r] pr
  have "router_get sn ''a@b.com'' = FriendFound (Rec (foldl apply_updates ?r0 ?us))"
    by auto
  also have "foldl apply_updates ?r0 ?us = \<lparr>firstName = ''Z'', lastName = ''B'', DOB = ''02-02-2002''\<rparr>"
    by (simp add: apply_updates_def)
  finally show ?thesis
    using p by (simp only: r snd_conv simp_thms)
qed

subsection \<open>Create: the email check\<close>

text \<open>
  C4. For a create whose body provides all four fields, none of them empty: the
  request is refused with 400 "Please provide a valid email address" exactly when the
  email does not contain both \<^verbatim>\<open>@\<close> and \<^verbatim>\<open>.\<close> as substrings, and it is never refused for
  missing fields. An email that contains both passes: the request then goes on to the
  duplicate check and, if \<^verbatim>\<open>friends[email]\<close> is falsy, creates the record. Nothing else
  about the form of the email is checked; the witness creates a record under the
  email \<^verbatim>\<open>@.\<close>.
\<close>

theorem create_email_check:
  assumes "body ''email'' = Some email" "body ''firstName'' = Some fn"
    and "body ''lastName'' = Some ln" "body ''DOB'' = Some dob"
    and "email \<noteq> []" "fn \<noteq> []" "ln \<noteq> []" "dob \<noteq> []"
  shows "(fst (router_post \<sigma> body) = InvalidEmail \<longleftrightarrow> \<not> (sublist ''@'' email \<and> sublist ''.'' email)) \<and>
         fst (router_post \<sigma> body) \<noteq> FieldsRequired \<and>
         (sublist ''@'' email \<and> sublist ''.'' email \<longrightarrow>
            (if truthy (friends_at \<sigma> email) then router_post \<sigma> body = (AlreadyExists email, \<sigma>)
             else fst (router_post \<sigma> body) = Created (Rec \<lparr>firstName = fn, lastName = ln, DOB = dob\<rparr>)))"
  using assms
  by (simp add: router_post_def get_prop_own str_includes_sublist Let_def friends_at_own update_conv')

theorem create_email_check_witness:
  "fst (router_post initial_store
     [''email'' \<mapsto> ''@.'', ''firstName'' \<mapsto> ''A'', ''lastName'' \<mapsto> ''B'', ''DOB'' \<mapsto> ''x''])
     = Created (Rec \<lparr>firstName = ''A'', lastName = ''B'', DOB = ''x''\<rparr>) \<and>
   fst (router_post initial_store
     [''email'' \<mapsto> ''a.b.com'', ''firstName'' \<mapsto> ''A'', ''lastName'' \<mapsto> ''B'', ''DOB'' \<mapsto> ''x''])
     = InvalidEmail"
proof -
  let ?b1 = "[''email'' \<mapsto> ''@.'', ''firstName'' \<mapsto> ''A'', ''lastName'' \<mapsto> ''B'', ''DOB'' \<mapsto> ''x'']"
  let ?b2 = "[''email'' \<mapsto> ''a.b.com'', ''firstName'' \<mapsto> ''A'', ''lastName'' \<mapsto> ''B'', ''DOB'' \<mapsto> ''x'']"
  have s1: "sublist ''@'' ''@.''" "sublist ''.'' ''@.''"
    by (simp_all add: str_includes_sublist [symmetric])
  have s2: "\<not> sublist ''@'' ''a.b.com''"
    by (simp add: str_includes_sublist [symmetric])
  have t: "\<not> truthy (friends_at initial_store ''@.'')"
    by (simp add: friends_at_def initial_store_def object_prototype_names_def object_prototype_def)
  have 1: "fst (router_post initial_store ?b1) = Created (Rec \<lparr>firstName = ''A'', lastName = ''B'', DOB = ''x''\<rparr>)"
    using create_email_check [of ?b1 "''@.''" "''A''" "''B''" "''x''" initial_store] s1 t by simp
  have 2: "fst (router_post initial_store ?b2) = InvalidEmail"
    using create_email_check [of ?b2 "''a.b.com''" "''A''" "''B''" "''x''" initial_store] s2 by simp
  from 1 2 show ?thesis ..
qed

section \<open>Properties of registration, login and the authentication gate\<close>

lemma doesExist_iff: "doesExist users u \<longleftrightarrow> u \<in> username ` set users"
  by (auto simp: doesExist_def list_ex_iff)

lemma authenticatedUser_iff:
  "authenticatedUser users u p \<longleftrightarrow> (\<exists>x \<in> set users. username x = u \<and> password x = p)"
  by (simp add: authenticatedUser_def list_ex_iff)

subsection \<open>The gate in front of the friend store\<close>

text \<open>
  C2. For every request to \<^verbatim>\<open>/friends\<close>: without an authorization value in the session
  the gate answers 401, the router is not run and the store is untouched; with an
  authorization value whose token fails verification against the secret
  \<^verbatim>\<open>access\<close> (and a token signed with another key or past its expiry does fail) the
  gate answers 403, again without running the router; when verification succeeds the
  gate attaches the username of the session and the payload of the token to the
  request, and the response and the new store are those of the router.
\<close>

theorem auth_gate:
  "(authorization sess = None \<longrightarrow>
      authMiddleware sess now = Respond401 \<and>
      app_friends sess now \<sigma> req = (Refused Respond401, \<sigma>)) \<and>
   (\<forall>auth. authorization sess = Some auth \<and>
      jwt_verify (accessToken auth) ''access'' now = None \<longrightarrow>
      authMiddleware sess now = Respond403 \<and>
      app_friends sess now \<sigma> req = (Refused Respond403, \<sigma>)) \<and>
   (\<forall>auth c key. authorization sess = Some auth \<and> accessToken auth = Signed c key \<and>
      (key \<noteq> ''access'' \<or> expiresAt c < now) \<longrightarrow>
      jwt_verify (accessToken auth) ''access'' now = None) \<and>
   (\<forall>auth decoded. authorization sess = Some auth \<and>
      jwt_verify (accessToken auth) ''access'' now = Some decoded \<longrightarrow>
      authMiddleware sess now = Next \<lparr>user_username = auth_username auth, user_data = data decoded\<rparr> \<and>
      app_friends sess now \<sigma> req =
        (Handled \<lparr>user_username = auth_username auth, user_data = data decoded\<rparr>
           (fst (router \<sigma> req)), snd (router \<sigma> req)))"
  by (auto simp: authMiddleware_def app_friends_def split: prod.splits)

theorem auth_gate_witness:
  "app_friends \<lparr>authorization = None, cookie_maxAge = 0\<rparr> 10 initial_store (Delete ''annasmith@gmail.com'')
     = (Refused Respond401, initial_store) \<and>
   app_friends
     \<lparr>authorization = Some \<lparr>accessToken = jwt_sign ''bob'' ''pw'' ''access'' 3600 0, auth_username = ''bob''\<rparr>,
      cookie_maxAge = 3600000\<rparr> 3601 initial_store (Delete ''annasmith@gmail.com'')
     = (Refused Respond403, initial_store) \<and>
   app_friends
     \<lparr>authorization = Some \<lparr>accessToken = jwt_sign ''bob'' ''pw'' ''other'' 3600 0, auth_username = ''bob''\<rparr>,
      cookie_maxAge = 3600000\<rparr> 10 initial_store (Delete ''annasmith@gmail.com'')
     = (Refused Respond403, initial_store) \<and>
   app_friends
     \<lparr>authorization = Some \<lparr>accessToken = jwt_sign ''bob'' ''pw'' ''access'' 3600 0, auth_username = ''bob''\<rparr>,
      cookie_maxAge = 3600000\<rparr> 10 initial_store GetAll
     = (Handled \<lparr>user_username = ''bob'', user_data = ''pw''\<rparr>
          (FriendsList (friends initial_store) 3), initial_store)"
proof -
  let ?a = "\<lambda>k. \<lparr>accessToken = jwt_sign ''bob'' ''pw'' k 3600 0, auth_username = ''bob''\<rparr>"
  let ?s = "\<lambda>k. \<lparr>authorization = Some (?a k), cookie_maxAge = 3600000\<rparr>"
  let ?c = "\<lparr>claim_username = ''bob'', data = ''pw'', issuedAt = 0, expiresAt = 3600\<rparr>"
  have 1: "app_friends \<lparr>authorization = None, cookie_maxAge = 0\<rparr> 10 initial_store
      (Delete ''annasmith@gmail.com'') = (Refused Respond401, initial_store)"
    using auth_gate [of "\<lparr>authorization = None, cookie_maxAge = 0\<rparr>" 10 initial_store
        "Delete ''annasmith@gmail.com''"]
    by simp
  have v2: "jwt_verify (accessToken (?a ''access'')) ''access'' 3601 = None"
    by (simp add: jwt_sign_def)
  have 2: "app_friends (?s ''access'') 3601 initial_store (Delete ''annasmith@gmail.com'')
      = (Refused Respond403, initial_store)"
    using auth_gate [of "?s ''access''" 3601 initial_store "Delete ''annasmith@gmail.com''"] v2
    by simp
  have v3: "jwt_verify (accessToken (?a ''other'')) ''access'' 10 = None"
    by (simp add: jwt_sign_def)
  have 3: "app_friends (?s ''other'') 10 initial_store (Delete ''annasmith@gmail.com'')
      = (Refused Respond403, initial_store)"
    using auth_gate [of "?s ''other''" 10 initial_store "Delete ''annasmith@gmail.com''"] v3
    by simp
  have v4: "jwt_verify (accessToken (?a ''access'')) ''access'' 10 = Some ?c"
    by (simp add: jwt_sign_def)
  have r4: "router_get_all initial_store = FriendsList (friends initial_store) 3"
    by (simp add: router_get_all_def keys_def initial_store_def)
  have 4: "app_friends (?s ''access'') 10 initial_store GetAll
      = (Handled \<lparr>user_username = ''bob'', user_data = ''pw''\<rparr>
          (FriendsList (friends initial_store) 3), initial_store)"
  proof -
    have a: "authorization (?s ''access'') = Some (?a ''access'')" by simp
    from auth_gate [of "?s ''access''" 10 initial_store GetAll] a v4
    have "app_friends (?s ''access'') 10 initial_store GetAll =
        (Handled \<lparr>user_username = auth_username (?a ''access''), user_data = data ?c\<rparr>
           (fst (router initial_store GetAll)), snd (router initial_store GetAll))"
      by blast
    then show ?thesis by (simp add: r4)
  qed
  from 1 2 3 4 show ?thesis by (simp only: simp_thms)
qed

subsection \<open>Registration\<close>

text \<open>
  C3 as stated fails where its two failure cases overlap: the handler checks for
  missing fields before it looks the username up, so a registration of an existing
  username with an empty password answers 400, not 409.
\<close>

theorem register_existing_empty_password:
  "doesExist [\<lparr>username = ''alice'', password = ''secret'', createdAt = 1\<rparr>] ''alice'' \<and>
   register [\<lparr>username = ''alice'', password = ''secret'', createdAt = 1\<rparr>] (Some ''alice'') (Some []) 2
     = (CredentialsRequired, [\<lparr>username = ''alice'', password = ''secret'', createdAt = 1\<rparr>]) \<and>
   register [\<lparr>username = ''alice'', password = ''secret'', createdAt = 1\<rparr>] (Some ''alice'') (Some []) 2
     \<noteq> (UsernameExists, [\<lparr>username = ''alice'', password = ''secret'', createdAt = 1\<rparr>])"
  by (simp add: register_def doesExist_def)

text \<open>
  C3 (as amended). A registration fails with 400 when either field is empty or
  absent, and the store is unchanged. With both fields non-empty it fails with 409,
  again leaving the store unchanged, when a user with exactly that username exists,
  and otherwise it appends exactly one user, with the username, the password and the
  current time. After such a registration every further registration of that
  username with a non-empty password fails with 409 and leaves the store, the record
  of the first registration included, as it is.
\<close>

theorem register_cases:
  "(falsy uname \<or> falsy pword \<longrightarrow>
      register users uname pword now = (CredentialsRequired, users)) \<and>
   (\<forall>u p. uname = Some u \<and> pword = Some p \<and> u \<noteq> [] \<and> p \<noteq> [] \<and> u \<in> username ` set users \<longrightarrow>
      register users uname pword now = (UsernameExists, users)) \<and>
   (\<forall>u p. uname = Some u \<and> pword = Some p \<and> u \<noteq> [] \<and> p \<noteq> [] \<and> u \<notin> username ` set users \<longrightarrow>
      register users uname pword now =
        (Registered, users @ [\<lparr>username = u, password = p, createdAt = now\<rparr>]) \<and>
      (\<forall>p' now'. p' \<noteq> [] \<longrightarrow>
         register (users @ [\<lparr>username = u, password = p, createdAt = now\<rparr>]) (Some u) (Some p') now' =
           (UsernameExists, users @ [\<lparr>username = u, password = p, createdAt = now\<rparr>])))"
  by (auto simp: register_def doesExist_iff)

theorem register_cases_witness:
  "register [] (Some ''alice'') (Some ''secret'') 1
     = (Registered, [\<lparr>username = ''alice'', password = ''secret'', createdAt = 1\<rparr>]) \<and>
   register [\<lparr>username = ''alice'', password = ''secret'', createdAt = 1\<rparr>]
       (Some ''alice'') (Some ''other'') 2
     = (UsernameExists, [\<lparr>username = ''alice'', password = ''secret'', createdAt = 1\<rparr>]) \<and>
   register [\<lparr>username = ''alice'', password = ''secret'', createdAt = 1\<rparr>] (Some ''bob'') None 3
     = (CredentialsRequired, [\<lparr>username = ''alice'', password = ''secret'', createdAt = 1\<rparr>])"
proof -
  let ?alice = "\<lparr>username = ''alice'', password = ''secret'', createdAt = 1\<rparr>"
  have 1: "register [] (Some ''alice'') (Some ''secret'') 1 = (Registered, [?alice])"
    using register_cases [of "Some ''alice''" "Some ''secret''" "[]" 1,
          THEN conjunct2, THEN conjunct2, rule_format, THEN conjunct1, of "''alice''" "''secret''"]
    by simp
  have 2: "register [?alice] (Some ''alice'') (Some ''other'') 2 = (UsernameExists, [?alice])"
    by (rule register_cases [of "Some ''alice''" "Some ''other''" "[?alice]" 2,
          THEN conjunct2, THEN conjunct1, rule_format, of "''alice''" "''other''"]) simp
  have 3: "register [?alice] (Some ''bob'') None 3 = (CredentialsRequired, [?alice])"
    by (rule register_cases [of "Some ''bob''" None "[?alice]" 3, THEN conjunct1, rule_format]) simp
  from 1 2 3 show ?thesis by (simp only: simp_thms)
qed

subsection \<open>Login\<close>

text \<open>
  C10. After a successful login the session holds a token signed with \<^verbatim>\<open>access\<close>
  whose \<open>data\<close> field is the password that was sent, which is the stored cleartext
  password of the user; the token expires an hour after the login. Before that the
  gate lets a request with this session pass and attaches the username and that
  password to it, and whenever the gate lets a request with this session pass, the
  payload it attaches is that password.
\<close>

theorem login_token_payload:
  assumes "login users sess uname pword now = (LoginSuccessful u, sess')"
  shows "\<exists>p. uname = Some u \<and> pword = Some p \<and>
           (\<exists>x \<in> set users. username x = u \<and> password x = p) \<and>
           authorization sess' =
             Some \<lparr>accessToken = jwt_sign u p ''access'' 3600 now, auth_username = u\<rparr> \<and>
           jwt_sign u p ''access'' 3600 now =
             Signed \<lparr>claim_username = u, data = p, issuedAt = now, expiresAt = now + 3600\<rparr> ''access'' \<and>
           (\<forall>t. t < now + 3600 \<longrightarrow>
              authMiddleware sess' t = Next \<lparr>user_username = u, user_data = p\<rparr>) \<and>
           (\<forall>t user. authMiddleware sess' t = Next user \<longrightarrow> user_data user = p)"
proof -
  from assms obtain p where
    u: "uname = Some u" and p: "pword = Some p" and a: "authenticatedUser users u p"
    and s: "sess' = sess\<lparr>authorization :=
              Some \<lparr>accessToken = jwt_sign u p ''access'' 3600 now, auth_username = u\<rparr>,
              cookie_maxAge := 3600000\<rparr>"
    by (cases uname; cases pword) (auto simp: login_def Let_def split: if_splits)
  have "authMiddleware sess' t = Next \<lparr>user_username = u, user_data = p\<rparr>" if "t < now + 3600" for t
    using that by (simp add: s authMiddleware_def jwt_sign_def)
  moreover have "user_data user = p" if "authMiddleware sess' t = Next user" for t user
    using that by (auto simp: s authMiddleware_def jwt_sign_def split: if_splits)
  ultimately show ?thesis
    using u p a by (simp add: s authenticatedUser_iff jwt_sign_def)
qed

theorem login_token_payload_witness:
  "login [\<lparr>username = ''alice'', password = ''secret'', createdAt = 1\<rparr>]
      \<lparr>authorization = None, cookie_maxAge = 0\<rparr> (Some ''alice'') (Some ''secret'') 100
     = (LoginSuccessful ''alice'',
        \<lparr>authorization = Some \<lparr>accessToken = jwt_sign ''alice'' ''secret'' ''access'' 3600 100,
                                 auth_username = ''alice''\<rparr>,
         cookie_maxAge = 3600000\<rparr>) \<and>
   authMiddleware
     \<lparr>authorization = Some \<lparr>accessToken = jwt_sign ''alice'' ''secret'' ''access'' 3600 100,
                              auth_username = ''alice''\<rparr>,
      cookie_maxAge = 3600000\<rparr> 200
     = Next \<lparr>user_username = ''alice'', user_data = ''secret''\<rparr>"
proof -
  let ?users = "[\<lparr>username = ''alice'', password = ''secret'', createdAt = 1\<rparr>]"
  let ?sess = "\<lparr>authorization = None, cookie_maxAge = 0\<rparr>"
  let ?sess' = "\<lparr>authorization = Some \<lparr>accessToken = jwt_sign ''alice'' ''secret'' ''access'' 3600 100,
                                 auth_username = ''alice''\<rparr>, cookie_maxAge = 3600000\<rparr>"
  have l: "login ?users ?sess (Some ''alice'') (Some ''secret'') 100 = (LoginSuccessful ''alice'', ?sess')"
    by (simp add: login_def authenticatedUser_def)
  from login_token_payload [OF l] obtain p where
    p: "Some ''secret'' = Some p"
    and g: "\<forall>t. t < 100 + 3600 \<longrightarrow>
              authMiddleware ?sess' t = Next \<lparr>user_username = ''alice'', user_data = p\<rparr>"
    by blast
  from g have "authMiddleware ?sess' 200 = Next \<lparr>user_username = ''alice'', user_data = p\<rparr>"
    by simp
  with p have "authMiddleware ?sess' 200 = Next \<lparr>user_username = ''alice'', user_data = ''secret''\<rparr>"
    by simp
  with l show ?thesis ..
qed

end
